theory Spec2Isabelle
  imports Main "HOL-Library.Sublist" "HOL-Library.Word"
begin

section \<open>Python values and library functions used by the plugin\<close>

text \<open>
  The plugin is Python glue between a D-Bus service and a launcher.  Strings are
  modelled as lists of 8-bit characters; case mapping and white space are those of
  ASCII, characters above 127 have no case and are not white space.  Python integers
  are unbounded (\<open>int\<close>); their decimal rendering and parsing are modelled without
  CPython's optional limit on the number of digits.
\<close>

subsection \<open>Strings\<close>

definition lower_char :: "char \<Rightarrow> char" where
  "lower_char c =
     (case map_of (zip ''ABCDEFGHIJKLMNOPQRSTUVWXYZ'' ''abcdefghijklmnopqrstuvwxyz'') c of
        Some l \<Rightarrow> l
      | None \<Rightarrow> c)"

text \<open>\<^verbatim>\<open>str.lower()\<close>\<close>

definition py_lower :: "string \<Rightarrow> string" where
  "py_lower s = map lower_char s"

text \<open>White space as \<^verbatim>\<open>str.isspace\<close> sees it below 128: TAB, LF, VT, FF, CR, FS, GS, RS, US, SPACE.\<close>

definition is_space :: "char \<Rightarrow> bool" where
  "is_space c = (let n = (of_char c :: nat) in (9 \<le> n \<and> n \<le> 13) \<or> (28 \<le> n \<and> n \<le> 32))"

text \<open>\<^verbatim>\<open>str.strip()\<close>\<close>

definition py_strip :: "string \<Rightarrow> string" where
  "py_strip s = rev (dropWhile is_space (rev (dropWhile is_space s)))"

text \<open>\<^verbatim>\<open>hay.find(needle)\<close>: the least index at which the needle starts, or -1.\<close>

fun py_find :: "string \<Rightarrow> string \<Rightarrow> int" where
  "py_find [] t = (if t = [] then 0 else - 1)"
| "py_find (c # cs) t =
     (if prefix t (c # cs) then 0
      else (let r = py_find cs t in if r = - 1 then - 1 else r + 1))"

text \<open>\<^verbatim>\<open>s.split(sep)\<close> for a one-character separator: always at least one part.\<close>

fun py_split :: "char \<Rightarrow> string \<Rightarrow> string list" where
  "py_split sep [] = [[]]"
| "py_split sep (c # cs) =
     (if c = sep then [] # py_split sep cs
      else (case py_split sep cs of
              [] \<Rightarrow> [[c]]
            | p # ps \<Rightarrow> (c # p) # ps))"

subsection \<open>Integers as text\<close>

definition is_digit :: "char \<Rightarrow> bool" where
  "is_digit c = (48 \<le> (of_char c :: nat) \<and> (of_char c :: nat) \<le> 57)"

definition digit_val :: "char \<Rightarrow> int" where
  "digit_val c = int (of_char c) - 48"

definition digit_char :: "nat \<Rightarrow> char" where
  "digit_char d = ''0123456789'' ! d"

text \<open>
  The digits of \<^verbatim>\<open>int(text)\<close> in base 10: a digit, then digits, each optionally
  preceded by a single underscore.
\<close>

fun parse_rest :: "string \<Rightarrow> int \<Rightarrow> int option" where
  "parse_rest [] acc = Some acc"
| "parse_rest [c] acc = (if is_digit c then Some (10 * acc + digit_val c) else None)"
| "parse_rest (c # d # ds) acc =
     (if is_digit c then parse_rest (d # ds) (10 * acc + digit_val c)
      else if c = CHR ''_'' \<and> is_digit d then parse_rest ds (10 * acc + digit_val d)
      else None)"

definition parse_digits :: "string \<Rightarrow> int option" where
  "parse_digits s =
     (case s of
        [] \<Rightarrow> None
      | c # cs \<Rightarrow> if is_digit c then parse_rest cs (digit_val c) else None)"

text \<open>\<^verbatim>\<open>int(text)\<close>: \<open>None\<close> stands for the \<^verbatim>\<open>ValueError\<close>.\<close>

definition py_int :: "string \<Rightarrow> int option" where
  "py_int s =
     (case py_strip s of
        [] \<Rightarrow> None
      | c # cs \<Rightarrow>
          if c = CHR ''-'' then map_option uminus (parse_digits cs)
          else if c = CHR ''+'' then parse_digits cs
          else parse_digits (c # cs))"

fun digits_of :: "nat \<Rightarrow> string" where
  "digits_of n =
     (if n < 10 then [digit_char n] else digits_of (n div 10) @ [digit_char (n mod 10)])"

declare digits_of.simps [simp del]

text \<open>\<^verbatim>\<open>str(n)\<close> for an integer.\<close>

definition py_str_int :: "int \<Rightarrow> string" where
  "py_str_int n = (if n < 0 then CHR ''-'' # digits_of (nat (- n)) else digits_of (nat n))"

subsection \<open>Decoded JSON\<close>

text \<open>
  A Python float is a dyadic rational \<open>m * 2 ^ e\<close>, an infinity or a NaN;
  \<^verbatim>\<open>json.loads\<close> produces all of them.
\<close>

datatype pyfloat = Float int int | PosInf | NegInf | NaN

datatype json =
    JNull
  | JBool bool
  | JInt int
  | JFloat pyfloat
  | JStr string
  | JArr "json list"
  | JObj "(string \<times> json) list"

datatype pyerror = TypeError | AttributeError | OverflowError | ValueError | IndexError

text \<open>Truth value of a decoded value (\<^verbatim>\<open>not win_id\<close> is its negation).\<close>

fun truthy :: "json \<Rightarrow> bool" where
  "truthy JNull = False"
| "truthy (JBool b) = b"
| "truthy (JInt n) = (n \<noteq> 0)"
| "truthy (JFloat (Float m e)) = (m \<noteq> 0)"
| "truthy (JFloat _) = True"
| "truthy (JStr s) = (s \<noteq> [])"
| "truthy (JArr xs) = (xs \<noteq> [])"
| "truthy (JObj kvs) = (kvs \<noteq> [])"

text \<open>
  \<^verbatim>\<open>win.get(key, default)\<close>: only a dict has \<^verbatim>\<open>get\<close>; a key that is present with the
  value null gives null, not the default.
\<close>

fun dict_get :: "json \<Rightarrow> string \<Rightarrow> json \<Rightarrow> pyerror + json" where
  "dict_get (JObj kvs) k dflt = Inr (case map_of kvs k of None \<Rightarrow> dflt | Some v \<Rightarrow> v)"
| "dict_get _ k dflt = Inl AttributeError"

text \<open>The receiver of \<^verbatim>\<open>x.lower()\<close>: only a string has the method.\<close>

fun str_of :: "json \<Rightarrow> pyerror + string" where
  "str_of (JStr s) = Inr s"
| "str_of _ = Inl AttributeError"

text \<open>\<^verbatim>\<open>x > 0\<close>: defined on booleans, integers and floats.\<close>

fun gt_zero :: "json \<Rightarrow> pyerror + bool" where
  "gt_zero (JBool b) = Inr b"
| "gt_zero (JInt n) = Inr (0 < n)"
| "gt_zero (JFloat (Float m e)) = Inr (0 < m)"
| "gt_zero (JFloat PosInf) = Inr True"
| "gt_zero (JFloat _) = Inr False"
| "gt_zero _ = Inl TypeError"

text \<open>\<^verbatim>\<open>for win in value\<close>: a list gives its items, a dict its keys, a string its characters.\<close>

fun py_iter :: "json \<Rightarrow> pyerror + json list" where
  "py_iter (JArr xs) = Inr xs"
| "py_iter (JObj kvs) = Inr (map (\<lambda>kv. JStr (fst kv)) kvs)"
| "py_iter (JStr s) = Inr (map (\<lambda>c. JStr [c]) s)"
| "py_iter _ = Inl TypeError"

text \<open>
  What the Python library does and this repository does not define:
  \<^verbatim>\<open>json.loads\<close> (\<open>None\<close> for \<^verbatim>\<open>JSONDecodeError\<close>) and the \<^verbatim>\<open>str()\<close> of floats,
  lists and dicts.
\<close>

record pylib =
  json_loads :: "string \<Rightarrow> json option"
  py_repr :: "json \<Rightarrow> string"

text \<open>The text an f-string puts for \<^verbatim>\<open>{win_id}\<close>.\<close>

fun py_str :: "pylib \<Rightarrow> json \<Rightarrow> string" where
  "py_str lib JNull = ''None''"
| "py_str lib (JBool b) = (if b then ''True'' else ''False'')"
| "py_str lib (JInt n) = py_str_int n"
| "py_str lib (JStr s) = s"
| "py_str lib v = py_repr lib v"

section \<open>The D-Bus side\<close>

text \<open>
  \<^verbatim>\<open>GLib.Variant("u", x)\<close> is an unsigned 32-bit value, \<^verbatim>\<open>GLib.Variant("b", False)\<close> a
  boolean.
\<close>

datatype variant = VU "32 word" | VB bool

definition in_u32 :: "int \<Rightarrow> bool" where
  "in_u32 n = (0 \<le> n \<and> n < 4294967296)"

definition u32_of_int :: "int \<Rightarrow> pyerror + variant" where
  "u32_of_int n = (if in_u32 n then Inr (VU (word_of_int n)) else Inl OverflowError)"

text \<open>A float is truncated towards zero before the range check.\<close>

definition trunc_float :: "int \<Rightarrow> int \<Rightarrow> int" where
  "trunc_float m e =
     (if 0 \<le> e then m * 2 ^ nat e
      else if 0 \<le> m then m div 2 ^ nat (- e)
      else - ((- m) div 2 ^ nat (- e)))"

text \<open>
  \<^verbatim>\<open>GLib.Variant("u", x)\<close>: a number is converted to an integer and must lie in
  \<open>0 .. 2^32 - 1\<close>; anything else is rejected.  PyGObject raises \<^verbatim>\<open>OverflowError\<close>
  for a number out of range and \<^verbatim>\<open>TypeError\<close> for a value that is not a number.
  The exception is raised by the constructor, before any call is made, and it is
  not a \<^verbatim>\<open>GLib.Error\<close>: \<^verbatim>\<open>_call_method\<close> does not see it.
\<close>

fun variant_u :: "json \<Rightarrow> pyerror + variant" where
  "variant_u (JInt n) = u32_of_int n"
| "variant_u (JBool b) = u32_of_int (if b then 1 else 0)"
| "variant_u (JFloat (Float m e)) = u32_of_int (trunc_float m e)"
| "variant_u _ = Inl TypeError"

text \<open>What \<^verbatim>\<open>call_sync\<close> gives: a \<^verbatim>\<open>GLib.Error\<close>, a falsy variant, or a tuple whose first
  element is a string.\<close>

datatype response = GLibError string | NoValue | Value string

type_synonym call = "string \<times> variant list"

text \<open>The service answers a call depending on the calls made before it.\<close>

type_synonym remote = "call list \<Rightarrow> call \<Rightarrow> response"

datatype logmsg =
    Connected
  | ConnectFailed string
  | ProxyUnavailable
  | CallFailed string string
  | ListDecodeFailed
  | DetailsDecodeFailed json
  | UnknownAction string
  | ParseIdFailed string

datatype loglevel = INFO | WARNING | ERROR

fun level :: "logmsg \<Rightarrow> loglevel" where
  "level Connected = INFO"
| "level (ConnectFailed e) = ERROR"
| "level ProxyUnavailable = WARNING"
| "level (CallFailed m e) = ERROR"
| "level ListDecodeFailed = ERROR"
| "level (DetailsDecodeFailed i) = ERROR"
| "level (UnknownAction a) = WARNING"
| "level (ParseIdFailed i) = ERROR"

text \<open>
  The state of the plugin and of its surroundings: the proxy held by
  \<^verbatim>\<open>WindowCommanderDBus\<close>, the calls that reached the bus with their answers, and the
  log records written.
\<close>

record state =
  proxy :: "remote option"
  trace :: "(call \<times> response) list"
  logs :: "logmsg list"

definition DBUS_INTERFACE_NAME :: string where
  "DBUS_INTERFACE_NAME = ''org.gnome.Shell.Extensions.WindowCommander''"

text \<open>\<^verbatim>\<open>WindowCommanderDBus.__init__\<close>: \<open>Inl\<close> is the \<^verbatim>\<open>GLib.Error\<close> of the constructor.\<close>

definition init :: "string + remote \<Rightarrow> state" where
  "init outcome =
     (case outcome of
        Inr r \<Rightarrow> \<lparr>proxy = Some r, trace = [], logs = [Connected]\<rparr>
      | Inl e \<Rightarrow> \<lparr>proxy = None, trace = [], logs = [ConnectFailed e]\<rparr>)"

text \<open>\<^verbatim>\<open>WindowCommanderDBus._call_method\<close>\<close>

definition call_method :: "string \<Rightarrow> variant list \<Rightarrow> state \<Rightarrow> string option \<times> state" where
  "call_method method_name params s =
     (case proxy s of
        None \<Rightarrow> (None, s\<lparr>logs := logs s @ [ProxyUnavailable]\<rparr>)
      | Some r \<Rightarrow>
          (let full_method = DBUS_INTERFACE_NAME @ ''.'' @ method_name;
               resp = r (map fst (trace s)) (full_method, params);
               s1 = s\<lparr>trace := trace s @ [((full_method, params), resp)]\<rparr>
           in case resp of
                GLibError e \<Rightarrow> (None, s1\<lparr>logs := logs s1 @ [CallFailed method_name e]\<rparr>)
              | NoValue \<Rightarrow> (None, s1)
              | Value v \<Rightarrow> (Some v, s1)))"

text \<open>The loop of \<^verbatim>\<open>get_all_windows_with_details\<close> over the decoded List response.\<close>

fun details_loop ::
  "pylib \<Rightarrow> json list \<Rightarrow> json list \<Rightarrow> state \<Rightarrow> (pyerror + json list option) \<times> state" where
  "details_loop lib [] detailed_windows s = (Inr (Some detailed_windows), s)"
| "details_loop lib (win # wins) detailed_windows s =
     (case dict_get win ''id'' JNull of
        Inl e \<Rightarrow> (Inl e, s)
      | Inr win_id \<Rightarrow>
          if \<not> truthy win_id then details_loop lib wins detailed_windows s
          else
            (case variant_u win_id of
               Inl e \<Rightarrow> (Inl e, s)
             | Inr v \<Rightarrow>
                 (case call_method ''GetDetails'' [v] s of
                    (None, s1) \<Rightarrow> details_loop lib wins detailed_windows s1
                  | (Some details_json, s1) \<Rightarrow>
                      if details_json = [] then details_loop lib wins detailed_windows s1
                      else
                        (case json_loads lib details_json of
                           None \<Rightarrow>
                             details_loop lib wins detailed_windows
                               (s1\<lparr>logs := logs s1 @ [DetailsDecodeFailed win_id]\<rparr>)
                         | Some details \<Rightarrow>
                             details_loop lib wins (detailed_windows @ [details]) s1))))"

text \<open>
  \<^verbatim>\<open>WindowCommanderDBus.get_all_windows_with_details\<close>: \<open>Inl\<close> is an exception that
  leaves the method, \<open>Inr None\<close> the returned \<^verbatim>\<open>None\<close>.
\<close>

definition get_all_windows_with_details ::
  "pylib \<Rightarrow> state \<Rightarrow> (pyerror + json list option) \<times> state" where
  "get_all_windows_with_details lib s =
     (case call_method ''List'' [] s of
        (None, s1) \<Rightarrow> (Inr None, s1)
      | (Some list_json, s1) \<Rightarrow>
          if list_json = [] then (Inr None, s1)
          else
            (case json_loads lib list_json of
               None \<Rightarrow> (Inr None, s1\<lparr>logs := logs s1 @ [ListDecodeFailed]\<rparr>)
             | Some basic_windows \<Rightarrow>
                 (case py_iter basic_windows of
                    Inl e \<Rightarrow> (Inl e, s1)
                  | Inr wins \<Rightarrow> details_loop lib wins [] s1)))"

text \<open>
  \<^verbatim>\<open>WindowCommanderDBus.execute_action\<close>.  The dict literal builds every
  \<^verbatim>\<open>GLib.Variant("u", win_id)\<close> before the action is looked up.
\<close>

definition action_map :: "variant \<Rightarrow> (string \<times> string \<times> variant list) list" where
  "action_map v =
     [(''activate'', (''Activate'', [v])),
      (''close'', (''Close'', [v, VB False])),
      (''maximize'', (''Maximize'', [v])),
      (''unmaximize'', (''Unmaximize'', [v])),
      (''minimize'', (''Minimize'', [v]))]"

definition execute_action :: "string \<Rightarrow> int \<Rightarrow> state \<Rightarrow> pyerror option \<times> state" where
  "execute_action action win_id s =
     (case u32_of_int win_id of
        Inl e \<Rightarrow> (Some e, s)
      | Inr v \<Rightarrow>
          (case map_of (action_map v) action of
             Some (method_name, params) \<Rightarrow> (None, snd (call_method method_name params s))
           | None \<Rightarrow> (None, s\<lparr>logs := logs s @ [UnknownAction action]\<rparr>)))"

section \<open>The launcher plugin\<close>

record search_result =
  sr_id :: string
  sr_title :: string
  sr_description :: string
  sr_icon :: string
  sr_score :: int
  sr_fuzzy :: bool
  sr_offset :: int

definition plugin_keywords :: "string list" where
  "plugin_keywords = [''w'', ''win'', ''window'']"

text \<open>The first loop of \<^verbatim>\<open>search\<close>: the trigger word, or the empty string.\<close>

fun find_trigger :: "string list \<Rightarrow> string \<Rightarrow> string" where
  "find_trigger [] query = []"
| "find_trigger (keyword # ks) query =
     (if prefix (keyword @ '' '') (py_lower query) then keyword @ '' ''
      else find_trigger ks query)"

definition error_result :: search_result where
  "error_result =
     \<lparr>sr_id = ''error:no-connection'',
      sr_title = ''Window Commander Not Found or Failed'',
      sr_description = ''Please ensure the GNOME extension is enabled.'',
      sr_icon = ''dialog-warning'',
      sr_score = 100, sr_fuzzy = False, sr_offset = 0\<rparr>"

definition activate_result :: "string \<Rightarrow> string \<Rightarrow> string \<Rightarrow> int \<Rightarrow> search_result" where
  "activate_result idtxt title wm_class offset =
     \<lparr>sr_id = ''activate:'' @ idtxt,
      sr_title = title,
      sr_description = ''Activate | Class: '' @ wm_class,
      sr_icon = wm_class,
      sr_score = 100, sr_fuzzy = False, sr_offset = offset\<rparr>"

definition close_result :: "string \<Rightarrow> string \<Rightarrow> string \<Rightarrow> int \<Rightarrow> search_result" where
  "close_result idtxt title wm_class offset =
     \<lparr>sr_id = ''close:'' @ idtxt,
      sr_title = ''Close: '' @ title,
      sr_description = ''Close Window | Class: '' @ wm_class,
      sr_icon = ''window-close'',
      sr_score = 90, sr_fuzzy = False, sr_offset = offset\<rparr>"

definition toggle_result ::
  "bool \<Rightarrow> string \<Rightarrow> string \<Rightarrow> string \<Rightarrow> int \<Rightarrow> search_result" where
  "toggle_result is_max idtxt title wm_class offset =
     (let action_id = (if is_max then ''unmaximize'' else ''maximize'');
          action_name = (if is_max then ''Unmaximize'' else ''Maximize'');
          icon_name = (if is_max then ''view-restore'' else ''view-fullscreen'')
      in \<lparr>sr_id = action_id @ '':'' @ idtxt,
          sr_title = action_name @ '': '' @ title,
          sr_description = action_name @ '' Window | Class: '' @ wm_class,
          sr_icon = icon_name,
          sr_score = 80, sr_fuzzy = False, sr_offset = offset\<rparr>)"

text \<open>
  The body of the second loop of \<^verbatim>\<open>search\<close> for one window: the results it yields,
  and the exception that ends the generator, if one is raised.
\<close>

definition window_results ::
  "pylib \<Rightarrow> string \<Rightarrow> json \<Rightarrow> search_result list \<times> pyerror option" where
  "window_results lib search_term win =
     (case dict_get win ''title'' (JStr ''Untitled Window'') of
        Inl e \<Rightarrow> ([], Some e)
      | Inr title_v \<Rightarrow>
     (case dict_get win ''wm_class'' (JStr ''unknown'') of
        Inl e \<Rightarrow> ([], Some e)
      | Inr wm_class_v \<Rightarrow>
     (case str_of title_v of
        Inl e \<Rightarrow> ([], Some e)
      | Inr title \<Rightarrow>
     (case str_of wm_class_v of
        Inl e \<Rightarrow> ([], Some e)
      | Inr wm_class \<Rightarrow>
     (let title_lower = py_lower title;
          class_lower = py_lower wm_class;
          offset = (if py_find title_lower search_term = - 1
                    then py_find class_lower search_term
                    else py_find title_lower search_term)
      in if offset = - 1 then ([], None)
         else
     (case dict_get win ''id'' JNull of
        Inl e \<Rightarrow> ([], Some e)
      | Inr win_id \<Rightarrow>
          if \<not> truthy win_id then ([], None)
          else
            (let idtxt = py_str lib win_id;
                 r1 = activate_result idtxt title wm_class offset;
                 r2 = close_result idtxt title wm_class offset
             in case dict_get win ''maximized'' (JInt 0) of
                  Inl e \<Rightarrow> ([r1, r2], Some e)
                | Inr m \<Rightarrow>
                    (case gt_zero m of
                       Inl e \<Rightarrow> ([r1, r2], Some e)
                     | Inr is_max \<Rightarrow>
                         ([r1, r2, toggle_result is_max idtxt title wm_class offset],
                          None)))))))))"

text \<open>The second loop of \<^verbatim>\<open>search\<close>: an exception ends it.\<close>

fun search_loop ::
  "pylib \<Rightarrow> string \<Rightarrow> json list \<Rightarrow> search_result list \<times> pyerror option" where
  "search_loop lib search_term [] = ([], None)"
| "search_loop lib search_term (win # wins) =
     (case window_results lib search_term win of
        (rs, Some e) \<Rightarrow> (rs, Some e)
      | (rs, None) \<Rightarrow>
          (case search_loop lib search_term wins of (rs', e) \<Rightarrow> (rs @ rs', e)))"

text \<open>
  \<^verbatim>\<open>WindowCommander.search\<close>, with the generator run to its end: the results yielded
  in order and the exception that ended it, if any.
\<close>

definition search ::
  "pylib \<Rightarrow> string \<Rightarrow> state \<Rightarrow> (search_result list \<times> pyerror option) \<times> state" where
  "search lib query s =
     (let trigger_word = find_trigger plugin_keywords query
      in if trigger_word = [] then (([], None), s)
         else
           (let search_term = py_lower (py_strip (drop (length trigger_word) query))
            in case get_all_windows_with_details lib s of
                 (Inl e, s1) \<Rightarrow> (([], Some e), s1)
               | (Inr None, s1) \<Rightarrow> (([error_result], None), s1)
               | (Inr (Some windows), s1) \<Rightarrow> (search_loop lib search_term windows, s1)))"

text \<open>
  \<^verbatim>\<open>WindowCommander.launch\<close>: \<^verbatim>\<open>ValueError\<close> and \<^verbatim>\<open>IndexError\<close> are caught and logged,
  any other exception leaves the method.
\<close>

definition launch :: "string \<Rightarrow> state \<Rightarrow> pyerror option \<times> state" where
  "launch ident s =
     (if prefix ''error:'' ident then (None, s)
      else
        (case py_split CHR '':'' ident of
           [action, win_id_str] \<Rightarrow>
             (case py_int win_id_str of
                None \<Rightarrow> (None, s\<lparr>logs := logs s @ [ParseIdFailed ident]\<rparr>)
              | Some win_id \<Rightarrow>
                  (case execute_action action win_id s of
                     (Some e, s1) \<Rightarrow>
                       if e = ValueError \<or> e = IndexError
                       then (None, s1\<lparr>logs := logs s1 @ [ParseIdFailed ident]\<rparr>)
                       else (Some e, s1)
                   | (None, s1) \<Rightarrow> (None, s1)))
         | _ \<Rightarrow> (None, s\<lparr>logs := logs s @ [ParseIdFailed ident]\<rparr>)))"

text \<open>
  The launcher creates the plugin once and then calls \<^verbatim>\<open>search\<close> and \<^verbatim>\<open>launch\<close> in any
  order.  An exception that leaves a callback is the launcher's to handle; the plugin
  lives on.
\<close>

datatype callback = Search string | Launch string

fun step :: "pylib \<Rightarrow> state \<Rightarrow> callback \<Rightarrow> state" where
  "step lib s (Search query) = snd (search lib query s)"
| "step lib s (Launch ident) = snd (launch ident s)"

definition run :: "pylib \<Rightarrow> string + remote \<Rightarrow> callback list \<Rightarrow> state" where
  "run lib outcome cbs = foldl (step lib) (init outcome) cbs"

section \<open>Notions used in the statements\<close>

definition remote_method_names :: "string list" where
  "remote_method_names =
     [''List'', ''GetDetails'', ''Activate'', ''Close'', ''Maximize'', ''Unmaximize'', ''Minimize'']"

definition full_name :: "string \<Rightarrow> string" where
  "full_name m = DBUS_INTERFACE_NAME @ ''.'' @ m"

text \<open>The names of the methods called so far, in order.\<close>

definition called_names :: "state \<Rightarrow> string list" where
  "called_names s = map (\<lambda>c. fst (fst c)) (trace s)"




text \<open>A response that is present, not empty and valid JSON, decoded.\<close>

fun decoded :: "pylib \<Rightarrow> response \<Rightarrow> json option" where
  "decoded lib (Value j) = (if j = [] then None else json_loads lib j)"
| "decoded lib _ = None"

text \<open>The title and the class that \<^verbatim>\<open>search\<close> matches against, with its defaults.\<close>

fun text_field :: "json \<Rightarrow> string \<Rightarrow> string \<Rightarrow> string option" where
  "text_field (JObj kvs) k dflt =
     (case map_of kvs k of
        None \<Rightarrow> Some dflt
      | Some (JStr x) \<Rightarrow> Some x
      | Some _ \<Rightarrow> None)"
| "text_field _ k dflt = None"

definition title_of :: "json \<Rightarrow> string option" where
  "title_of win = text_field win ''title'' ''Untitled Window''"

definition wm_class_of :: "json \<Rightarrow> string option" where
  "wm_class_of win = text_field win ''wm_class'' ''unknown''"

text \<open>The \<open>maximized\<close> field read as a number: absent is 0, a boolean is 0 or 1.\<close>

fun maximized_of :: "json \<Rightarrow> bool option" where
  "maximized_of (JObj kvs) =
     (case map_of kvs ''maximized'' of
        None \<Rightarrow> Some False
      | Some v \<Rightarrow> (case gt_zero v of Inl e \<Rightarrow> None | Inr b \<Rightarrow> Some b))"
| "maximized_of _ = None"



text \<open>The id of a window object, null when absent.\<close>

fun id_of :: "json \<Rightarrow> json" where
  "id_of (JObj kvs) = (case map_of kvs ''id'' of None \<Rightarrow> JNull | Some v \<Rightarrow> v)"
| "id_of _ = JNull"

text \<open>What remains of a query after its trigger word, as \<^verbatim>\<open>search\<close> compares it.\<close>

definition search_term_of :: "string \<Rightarrow> string" where
  "search_term_of query =
     py_lower (py_strip (drop (length (find_trigger plugin_keywords query)) query))"

text \<open>The launcher ids of the window actions and the methods they stand for.\<close>

definition offered_actions :: "(string \<times> string) list" where
  "offered_actions =
     [(''activate'', ''Activate''), (''close'', ''Close''),
      (''maximize'', ''Maximize''), (''unmaximize'', ''Unmaximize'')]"

section \<open>A sample desktop\<close>

text \<open>
  A service with three windows and one stale entry, the decoding of its payloads, and
  services that answer every List and every GetDetails with one fixed payload.
\<close>

definition desk :: remote where
  \<open>desk hist c =
     (if c = (full_name ''List'', []) then
        Value ''[{"id": 7}, {"id": 0}, {"id": 9}, {"id": 11}]''
      else if c = (full_name ''GetDetails'', [VU 7]) then
        Value ''{"id": 7, "title": "Inbox - Mail", "wm_class": "thunderbird", "maximized": 0}''
      else if c = (full_name ''GetDetails'', [VU 9]) then
        Value ''{"id": 9, "title": "Terminal", "wm_class": "kgx", "maximized": 2}''
      else if c = (full_name ''GetDetails'', [VU 11]) then
        Value ''{"id": 11''
      else NoValue)\<close>

definition scripted :: "string \<Rightarrow> string \<Rightarrow> remote" where
  "scripted list_json details_json hist c =
     (if fst c = full_name ''List'' then Value list_json
      else if fst c = full_name ''GetDetails'' then Value details_json
      else NoValue)"

definition failing :: remote where
  "failing hist c = GLibError ''timeout''"

definition sample_loads :: "string \<Rightarrow> json option" where
  \<open>sample_loads =
     map_of
      [(''[{"id": 7}, {"id": 0}, {"id": 9}, {"id": 11}]'',
          JArr [JObj [(''id'', JInt 7)], JObj [(''id'', JInt 0)],
                JObj [(''id'', JInt 9)], JObj [(''id'', JInt 11)]]),
       (''{"id": 7, "title": "Inbox - Mail", "wm_class": "thunderbird", "maximized": 0}'',
          JObj [(''id'', JInt 7), (''title'', JStr ''Inbox - Mail''),
                (''wm_class'', JStr ''thunderbird''), (''maximized'', JInt 0)]),
       (''{"id": 9, "title": "Terminal", "wm_class": "kgx", "maximized": 2}'',
          JObj [(''id'', JInt 9), (''title'', JStr ''Terminal''),
                (''wm_class'', JStr ''kgx''), (''maximized'', JInt 2)]),
       (''[{"id": 7}]'', JArr [JObj [(''id'', JInt 7)]]),
       (''[{"id": 4294967296}]'', JArr [JObj [(''id'', JInt 4294967296)]]),
       (''{"id": 4294967296, "title": "Inbox - Mail"}'',
          JObj [(''id'', JInt 4294967296), (''title'', JStr ''Inbox - Mail'')]),
       (''{"id": 7, "title": "Inbox - Mail", "wm_class": null}'',
          JObj [(''id'', JInt 7), (''title'', JStr ''Inbox - Mail''), (''wm_class'', JNull)]),
       (''{"id": 7, "title": "Inbox - Mail", "maximized": null}'',
          JObj [(''id'', JInt 7), (''title'', JStr ''Inbox - Mail''), (''maximized'', JNull)])]\<close>

definition sample_lib :: pylib where
  "sample_lib = \<lparr>json_loads = sample_loads, py_repr = (\<lambda>v. ''?'')\<rparr>"

definition sample_session :: "callback list" where
  "sample_session =
     [Search ''w mail'', Launch ''activate:7'', Launch ''maximize:7'', Launch ''unmaximize:7'',
      Launch ''minimize:7'', Launch ''close:7'']"

section \<open>Facts about the library functions\<close>

lemma py_split_nonempty: "py_split sep xs \<noteq> []"
  by (induction xs) (auto split: list.splits)

lemma py_split_no_sep: "sep \<notin> set xs \<Longrightarrow> py_split sep xs = [xs]"
  by (induction xs) auto

lemma py_split_append: "sep \<notin> set xs \<Longrightarrow> py_split sep (xs @ sep # ys) = xs # py_split sep ys"
  by (induction xs) auto

lemma digit_char_props:
  assumes "d < 10"
  shows "is_digit (digit_char d)" and "digit_val (digit_char d) = int d"
proof -
  from assms have "d \<in> {0, 1, 2, 3, 4, 5, 6, 7, 8, 9}" by auto
  then show "is_digit (digit_char d)" and "digit_val (digit_char d) = int d"
    by (auto simp: is_digit_def digit_val_def digit_char_def)
qed

lemma is_digit_not_special:
  assumes "is_digit c"
  shows "\<not> is_space c" and "c \<noteq> CHR '':''" and "c \<noteq> CHR ''-''" and "c \<noteq> CHR ''+''"
  using assms by (auto simp: is_digit_def is_space_def)

lemma digits_of_digits: "c \<in> set (digits_of n) \<Longrightarrow> is_digit c"
proof (induction n arbitrary: c rule: digits_of.induct)
  case (1 n)
  show ?case
  proof (cases "n < 10")
    case True
    with "1.prems" show ?thesis
      by (simp add: digits_of.simps [of n] digit_char_props)
  next
    case False
    with "1.prems" "1.IH" show ?thesis
      by (auto simp: digits_of.simps [of n] digit_char_props)
  qed
qed

lemma digits_of_nonempty: "digits_of n \<noteq> []"
  by (subst digits_of.simps) simp

lemma parse_rest_snoc:
  "parse_rest ds acc = Some v \<Longrightarrow> is_digit c \<Longrightarrow> parse_rest (ds @ [c]) acc = Some (10 * v + digit_val c)"
  by (induction ds acc rule: parse_rest.induct) (auto split: if_splits)

lemma parse_digits_of: "parse_digits (digits_of n) = Some (int n)"
proof (induction n rule: digits_of.induct)
  case (1 n)
  show ?case
  proof (cases "n < 10")
    case True
    then show ?thesis
      by (simp add: digits_of.simps [of n] parse_digits_def digit_char_props)
  next
    case False
    then have ih: "parse_digits (digits_of (n div 10)) = Some (int (n div 10))"
      using "1.IH" by simp
    obtain c cs where cs: "digits_of (n div 10) = c # cs"
      using digits_of_nonempty [of "n div 10"] by (cases "digits_of (n div 10)") auto
    from ih cs have c: "is_digit c" and r: "parse_rest cs (digit_val c) = Some (int (n div 10))"
      by (auto simp: parse_digits_def split: if_splits)
    have d: "is_digit (digit_char (n mod 10))" "digit_val (digit_char (n mod 10)) = int (n mod 10)"
      by (simp_all add: digit_char_props)
    from parse_rest_snoc [OF r d(1)] d(2)
    have "parse_rest (cs @ [digit_char (n mod 10)]) (digit_val c) = Some (int n)"
      by (simp add: zdiv_int zmod_int)
    with False cs c show ?thesis
      by (simp add: digits_of.simps [of n] parse_digits_def)
  qed
qed

lemma dropWhile_head: "xs \<noteq> [] \<Longrightarrow> \<not> P (hd xs) \<Longrightarrow> dropWhile P xs = xs"
  by (cases xs) auto

lemma py_strip_id:
  assumes "xs \<noteq> []" "\<not> is_space (hd xs)" "\<not> is_space (last xs)"
  shows "py_strip xs = xs"
  using assms by (simp add: py_strip_def dropWhile_head hd_rev)

lemma py_int_py_str_int: "py_int (py_str_int n) = Some n"
proof (cases "n < 0")
  case False
  let ?ds = "digits_of (nat n)"
  have ne: "?ds \<noteq> []" by (rule digits_of_nonempty)
  then have h: "is_digit (hd ?ds)" and l: "is_digit (last ?ds)"
    using hd_in_set [of ?ds] last_in_set [of ?ds] by (blast intro: digits_of_digits)+
  have "py_strip ?ds = ?ds"
    using ne h l by (intro py_strip_id) (auto simp: is_digit_not_special)
  moreover obtain c cs where cs: "?ds = c # cs" using ne by (cases ?ds) auto
  moreover have "is_digit c" using h cs by simp
  ultimately show ?thesis
    using False parse_digits_of [of "nat n"]
    by (simp add: py_int_def py_str_int_def is_digit_not_special)
next
  case True
  let ?ds = "digits_of (nat (- n))"
  have ne: "?ds \<noteq> []" by (rule digits_of_nonempty)
  then have l: "is_digit (last ?ds)"
    using last_in_set [of ?ds] by (blast intro: digits_of_digits)
  have m: "\<not> is_space CHR ''-''" by (simp add: is_space_def)
  have "py_strip (CHR ''-'' # ?ds) = CHR ''-'' # ?ds"
    using ne l m by (intro py_strip_id) (auto simp: is_digit_not_special)
  then show ?thesis
    using True parse_digits_of [of "nat (- n)"]
    by (simp add: py_int_def py_str_int_def)
qed

lemma py_str_int_no_colon: "CHR '':'' \<notin> set (py_str_int n)"
  by (auto simp: py_str_int_def dest: digits_of_digits is_digit_not_special(2))



section \<open>The keyword gate of search\<close>

lemma find_trigger_keywords:
  "find_trigger plugin_keywords q =
     (if prefix ''w '' (py_lower q) then ''w ''
      else if prefix ''win '' (py_lower q) then ''win ''
      else if prefix ''window '' (py_lower q) then ''window '' else [])"
  by (simp add: plugin_keywords_def)

text \<open>
  C8.  A query whose lowercased text does not start with \<open>w\<close>, \<open>win\<close> or \<open>window\<close>
  followed by a space makes \<^verbatim>\<open>search\<close> yield nothing, not even the connection-error
  result, and leaves the state as it was: no call reaches the bus and nothing is
  logged.  In particular the bare keywords yield nothing.
\<close>

theorem search_keyword_gate:
  "(\<not> (prefix ''w '' (py_lower q) \<or> prefix ''win '' (py_lower q) \<or> prefix ''window '' (py_lower q))
      \<longrightarrow> search lib q s = (([], None), s)) \<and>
   search lib ''w'' s = (([], None), s) \<and>
   search lib ''win'' s = (([], None), s) \<and>
   search lib ''window'' s = (([], None), s)"
  by (simp add: search_def find_trigger_keywords py_lower_def lower_char_def)

theorem search_keyword_gate_witness:
  "fst (search sample_lib ''Windows of the world'' (init (Inr desk))) = ([], None) \<and>
   trace (snd (search sample_lib ''Windows of the world'' (init (Inr desk)))) = []"
  using search_keyword_gate [of "''Windows of the world''" sample_lib "init (Inr desk)"]
  by (simp add: py_lower_def lower_char_def init_def)

section \<open>Calls and the state they leave\<close>

lemma call_method_proxy: "proxy (snd (call_method m ps s)) = proxy s"
  by (simp add: call_method_def Let_def split: option.splits response.splits)

lemma call_method_no_proxy:
  "proxy s = None \<Longrightarrow> call_method m ps s = (None, s\<lparr>logs := logs s @ [ProxyUnavailable]\<rparr>)"
  by (simp add: call_method_def)

lemma call_method_trace:
  "proxy s = Some r \<Longrightarrow>
   trace (snd (call_method m ps s)) =
     trace s @ [((full_name m, ps), r (map fst (trace s)) (full_name m, ps))]"
  by (simp add: call_method_def full_name_def Let_def split: response.splits)

lemma call_method_trace_none:
  "proxy s = None \<Longrightarrow> trace (snd (call_method m ps s)) = trace s"
  by (simp add: call_method_def)

lemma call_method_result:
  "proxy s = Some r \<Longrightarrow>
   fst (call_method m ps s) =
     (case r (map fst (trace s)) (full_name m, ps) of Value v \<Rightarrow> Some v | _ \<Rightarrow> None)"
  by (simp add: call_method_def full_name_def Let_def split: response.splits)

lemma execute_action_proxy: "proxy (snd (execute_action a n s)) = proxy s"
  by (simp add: execute_action_def call_method_proxy split: sum.splits option.splits)

lemma launch_proxy: "proxy (snd (launch i s)) = proxy s"
proof -
  have "proxy (snd (case execute_action a n s of
          (Some e, s1) \<Rightarrow> if e = ValueError \<or> e = IndexError
             then (None, s1\<lparr>logs := logs s1 @ [ParseIdFailed i]\<rparr>) else (Some e, s1)
        | (None, s1) \<Rightarrow> (None, s1))) = proxy s" for a n
    using execute_action_proxy [of a n s]
    by (cases "execute_action a n s") (auto split: option.splits)
  then show ?thesis
    by (simp add: launch_def split: list.splits option.splits)
qed

section \<open>Launching a result\<close>

lemmas run_simps = launch_def execute_action_def action_map_def call_method_def
  u32_of_int_def in_u32_def py_int_def py_strip_def is_space_def parse_digits_def
  is_digit_def digit_val_def init_def desk_def full_name_def DBUS_INTERFACE_NAME_def Let_def



section \<open>Forwarding an action\<close>

lemma action_map_lookup:
  "map_of (action_map v) a =
     (if a = ''activate'' then Some (''Activate'', [v])
      else if a = ''close'' then Some (''Close'', [v, VB False])
      else if a = ''maximize'' then Some (''Maximize'', [v])
      else if a = ''unmaximize'' then Some (''Unmaximize'', [v])
      else if a = ''minimize'' then Some (''Minimize'', [v])
      else None)"
  by (simp add: action_map_def)

lemma action_map_dom:
  "(map_of (action_map v) a \<noteq> None) =
     (a \<in> {''activate'', ''close'', ''maximize'', ''unmaximize'', ''minimize''})"
  by (simp add: action_map_lookup)

lemma execute_action_known:
  assumes "proxy s = Some r" "in_u32 n" "map_of (action_map (VU (word_of_int n))) a = Some (m, ps)"
  shows "fst (execute_action a n s) = None"
    and "trace (snd (execute_action a n s)) =
           trace s @ [((full_name m, ps), r (map fst (trace s)) (full_name m, ps))]"
  using assms by (simp_all add: execute_action_def u32_of_int_def call_method_trace)

lemma execute_action_unknown:
  assumes "in_u32 n" "map_of (action_map (VU (word_of_int n))) a = None"
  shows "execute_action a n s = (None, s\<lparr>logs := logs s @ [UnknownAction a]\<rparr>)"
  using assms by (simp add: execute_action_def u32_of_int_def)

text \<open>
  C4 (as amended).  With a proxy and a window id in \<open>0 .. 2^32 - 1\<close>,
  \<^verbatim>\<open>execute_action\<close> makes a remote call exactly when the action is one of the five
  commands activate, close, maximize, unmaximize, minimize; it then makes exactly one
  call, of the method mapped to the action.  For any other action it only writes a
  warning.  The claim with four commands fails: unmaximize is forwarded too.
\<close>

theorem execute_action_forwards:
  "proxy s = Some r \<and> in_u32 n \<longrightarrow>
     ((trace (snd (execute_action a n s)) \<noteq> trace s) =
        (a \<in> {''activate'', ''close'', ''maximize'', ''unmaximize'', ''minimize''})) \<and>
     (a \<in> {''activate'', ''close'', ''maximize'', ''unmaximize'', ''minimize''} \<longrightarrow>
        (\<exists>m ps. map_of (action_map (VU (word_of_int n))) a = Some (m, ps) \<and>
           fst (execute_action a n s) = None \<and>
           trace (snd (execute_action a n s)) =
             trace s @ [((full_name m, ps), r (map fst (trace s)) (full_name m, ps))])) \<and>
     (a \<notin> {''activate'', ''close'', ''maximize'', ''unmaximize'', ''minimize''} \<longrightarrow>
        execute_action a n s = (None, s\<lparr>logs := logs s @ [UnknownAction a]\<rparr>) \<and>
        level (UnknownAction a) = WARNING)"
proof (intro impI, elim conjE)
  assume p: "proxy s = Some r" and n: "in_u32 n"
  let ?A = "{''activate'', ''close'', ''maximize'', ''unmaximize'', ''minimize''}"
  let ?v = "VU (word_of_int n)"
  show "((trace (snd (execute_action a n s)) \<noteq> trace s) = (a \<in> ?A)) \<and>
     (a \<in> ?A \<longrightarrow>
        (\<exists>m ps. map_of (action_map ?v) a = Some (m, ps) \<and>
           fst (execute_action a n s) = None \<and>
           trace (snd (execute_action a n s)) =
             trace s @ [((full_name m, ps), r (map fst (trace s)) (full_name m, ps))])) \<and>
     (a \<notin> ?A \<longrightarrow>
        execute_action a n s = (None, s\<lparr>logs := logs s @ [UnknownAction a]\<rparr>) \<and>
        level (UnknownAction a) = WARNING)"
  proof (cases "map_of (action_map ?v) a")
    case None
    then have "a \<notin> ?A" using action_map_dom [of ?v a] by simp
    with None n show ?thesis by (simp add: execute_action_unknown)
  next
    case (Some mp)
    obtain m ps where mp: "mp = (m, ps)" by (cases mp)
    from Some have "a \<in> ?A" using action_map_dom [of ?v a] by simp
    with Some mp execute_action_known [OF p n, of a m ps] show ?thesis by auto
  qed
qed

theorem execute_action_forwards_witness:
  "map fst (trace (snd (execute_action ''minimize'' 7 (init (Inr desk))))) =
     [(full_name ''Minimize'', [VU 7])] \<and>
   execute_action ''shade'' 7 (init (Inr desk)) =
     (None, (init (Inr desk))\<lparr>logs := [Connected, UnknownAction ''shade'']\<rparr>)"
  using execute_action_forwards [of "init (Inr desk)" desk 7 "''minimize''"]
    execute_action_forwards [of "init (Inr desk)" desk 7 "''shade''"]
  by (simp add: run_simps)

theorem four_actions_counterexample:
  "''unmaximize'' \<notin> {''activate'', ''close'', ''maximize'', ''minimize''} \<and>
   map fst (trace (snd (execute_action ''unmaximize'' 7 (init (Inr desk))))) =
     [(full_name ''Unmaximize'', [VU 7])] \<and>
   logs (snd (execute_action ''unmaximize'' 7 (init (Inr desk)))) = [Connected]"
  by (simp add: run_simps)

section \<open>Fetching the windows\<close>

declare details_loop.simps(2) [simp del]

lemmas details_loop_Cons = details_loop.simps(2)







lemmas sample_simps = get_all_windows_with_details_def details_loop_Cons sample_lib_def
  sample_loads_def scripted_def

lemma desk_fetch:
  \<open>fst (get_all_windows_with_details sample_lib (init (Inr desk))) =
     Inr (Some [JObj [(''id'', JInt 7), (''title'', JStr ''Inbox - Mail''),
                      (''wm_class'', JStr ''thunderbird''), (''maximized'', JInt 0)],
                JObj [(''id'', JInt 9), (''title'', JStr ''Terminal''),
                      (''wm_class'', JStr ''kgx''), (''maximized'', JInt 2)]])\<close>
  by (simp add: sample_simps run_simps)




section \<open>Failures while fetching\<close>

lemma details_step:
  "(\<exists>e. details_loop lib (w # ws) acc s = (Inl e, s)) \<or>
   (\<exists>new1 s1. details_loop lib (w # ws) acc s =
        details_loop lib ws (acc @ List.map_filter (decoded lib) (map snd new1)) s1 \<and>
      trace s1 = trace s @ new1 \<and>
      (\<forall>c\<in>set new1. fst (fst c) = full_name ''GetDetails'') \<and>
      proxy s1 = proxy s)"
proof (cases "dict_get w ''id'' JNull")
  case (Inl e)
  then show ?thesis by (simp add: details_loop_Cons)
next
  case (Inr win_id)
  show ?thesis
  proof (cases "truthy win_id")
    case False
    with Inr have "details_loop lib (w # ws) acc s =
        details_loop lib ws (acc @ List.map_filter (decoded lib) (map snd [])) s"
      by (simp add: details_loop_Cons)
    then show ?thesis by (intro disjI2 exI [of _ "[]"] exI [of _ s]) simp
  next
    case True
    show ?thesis
    proof (cases "variant_u win_id")
      case (Inl e)
      with Inr True show ?thesis by (simp add: details_loop_Cons)
    next
      case v: (Inr v)
      note pre = Inr True v
      show ?thesis
      proof (cases "proxy s")
        case None
        let ?s1 = "s\<lparr>logs := logs s @ [ProxyUnavailable]\<rparr>"
        from pre None have "details_loop lib (w # ws) acc s =
            details_loop lib ws (acc @ List.map_filter (decoded lib) (map snd [])) ?s1"
          by (simp add: details_loop_Cons call_method_def)
        then show ?thesis by (intro disjI2 exI [of _ "[]"] exI [of _ ?s1]) simp
      next
        case (Some r)
        let ?c = "(full_name ''GetDetails'', [v])"
        let ?resp = "r (map fst (trace s)) ?c"
        let ?t = "s\<lparr>trace := trace s @ [(?c, ?resp)]\<rparr>"
        have "\<exists>s1. details_loop lib (w # ws) acc s =
            details_loop lib ws (acc @ List.map_filter (decoded lib) (map snd [(?c, ?resp)])) s1 \<and>
            trace s1 = trace s @ [(?c, ?resp)] \<and> proxy s1 = proxy s"
        proof (cases ?resp)
          case (GLibError e)
          with pre Some show ?thesis
            by (intro exI [of _ "?t\<lparr>logs := logs s @ [CallFailed ''GetDetails'' e]\<rparr>"])
               (simp add: details_loop_Cons call_method_def full_name_def Let_def)
        next
          case NoValue
          with pre Some show ?thesis
            by (intro exI [of _ ?t])
               (simp add: details_loop_Cons call_method_def full_name_def Let_def)
        next
          case (Value j)
          show ?thesis
          proof (cases "j = []")
            case True
            with Value pre Some show ?thesis
              by (intro exI [of _ ?t])
                 (simp add: details_loop_Cons call_method_def full_name_def Let_def)
          next
            case False
            show ?thesis
            proof (cases "json_loads lib j")
              case None
              with False Value pre Some show ?thesis
                by (intro exI [of _ "?t\<lparr>logs := logs s @ [DetailsDecodeFailed win_id]\<rparr>"])
                   (simp add: details_loop_Cons call_method_def full_name_def Let_def)
            next
              case (Some d)
              with False Value pre \<open>proxy s = Some r\<close> show ?thesis
                by (intro exI [of _ ?t])
                   (simp add: details_loop_Cons call_method_def full_name_def Let_def)
            qed
          qed
        qed
        then obtain s1 where "details_loop lib (w # ws) acc s =
            details_loop lib ws (acc @ List.map_filter (decoded lib) (map snd [(?c, ?resp)])) s1"
            "trace s1 = trace s @ [(?c, ?resp)]" "proxy s1 = proxy s" by blast
        then show ?thesis by (intro disjI2 exI [of _ "[(?c, ?resp)]"] exI [of _ s1]) simp
      qed
    qed
  qed
qed

lemma details_loop_returns:
  assumes "details_loop lib ws acc s = (Inr (Some ds), s')"
  shows "\<exists>new. trace s' = trace s @ new \<and>
           ds = acc @ List.map_filter (decoded lib) (map snd new) \<and>
           (\<forall>c\<in>set new. fst (fst c) = full_name ''GetDetails'') \<and>
           proxy s' = proxy s"
  using assms
proof (induction ws arbitrary: acc s)
  case Nil
  then show ?case by simp
next
  case (Cons w ws)
  from details_step [of lib w ws acc s] Cons.prems
  obtain new1 s1 where st:
      "details_loop lib (w # ws) acc s =
         details_loop lib ws (acc @ List.map_filter (decoded lib) (map snd new1)) s1"
      "trace s1 = trace s @ new1"
      "\<forall>c\<in>set new1. fst (fst c) = full_name ''GetDetails''"
      "proxy s1 = proxy s" by auto
  from st(1) Cons.prems have "details_loop lib ws
      (acc @ List.map_filter (decoded lib) (map snd new1)) s1 = (Inr (Some ds), s')" by simp
  from Cons.IH [OF this] obtain new where n:
      "trace s' = trace s1 @ new"
      "ds = (acc @ List.map_filter (decoded lib) (map snd new1)) @
              List.map_filter (decoded lib) (map snd new)"
      "\<forall>c\<in>set new. fst (fst c) = full_name ''GetDetails''"
      "proxy s' = proxy s1" by blast
  have "List.map_filter (decoded lib) (map snd (new1 @ new)) =
          List.map_filter (decoded lib) (map snd new1) @
          List.map_filter (decoded lib) (map snd new)"
    by (simp add: List.map_filter_def)
  with n st show ?case
    by (intro exI [of _ "new1 @ new"]) auto
qed

lemma details_loop_trace:
  "\<exists>new. trace (snd (details_loop lib ws acc s)) = trace s @ new \<and>
         (\<forall>c\<in>set new. fst (fst c) = full_name ''GetDetails'') \<and>
         proxy (snd (details_loop lib ws acc s)) = proxy s"
proof (induction ws arbitrary: acc s)
  case Nil
  then show ?case by simp
next
  case (Cons w ws)
  from details_step [of lib w ws acc s]
  show ?case
  proof (elim disjE exE conjE)
    fix e assume "details_loop lib (w # ws) acc s = (Inl e, s)"
    then show ?thesis by simp
  next
    fix new1 s1
    assume st: "details_loop lib (w # ws) acc s =
         details_loop lib ws (acc @ List.map_filter (decoded lib) (map snd new1)) s1"
      "trace s1 = trace s @ new1"
      "\<forall>c\<in>set new1. fst (fst c) = full_name ''GetDetails''"
      "proxy s1 = proxy s"
    from Cons.IH [of "acc @ List.map_filter (decoded lib) (map snd new1)" s1]
    obtain new where n:
      "trace (snd (details_loop lib ws (acc @ List.map_filter (decoded lib) (map snd new1)) s1))
         = trace s1 @ new"
      "\<forall>c\<in>set new. fst (fst c) = full_name ''GetDetails''"
      "proxy (snd (details_loop lib ws (acc @ List.map_filter (decoded lib) (map snd new1)) s1))
         = proxy s1" by blast
    with st show ?thesis
      by (intro exI [of _ "new1 @ new"]) auto
  qed
qed

lemma call_method_new:
  "\<exists>new. trace (snd (call_method m ps s)) = trace s @ new \<and>
         (\<forall>c\<in>set new. fst (fst c) = full_name m)"
proof (cases "proxy s")
  case None
  then show ?thesis by (simp add: call_method_trace_none)
next
  case (Some r)
  then show ?thesis by (simp add: call_method_trace)
qed

lemma get_all_trace:
  "\<exists>new. trace (snd (get_all_windows_with_details lib s)) = trace s @ new \<and>
         (\<forall>c\<in>set new. fst (fst c) = full_name ''List'' \<or> fst (fst c) = full_name ''GetDetails'') \<and>
         proxy (snd (get_all_windows_with_details lib s)) = proxy s"
proof -
  obtain res s1 where cm: "call_method ''List'' [] s = (res, s1)"
    by (cases "call_method ''List'' [] s")
  from call_method_new [of "''List''" "[]" s] cm
  obtain new1 where n1: "trace s1 = trace s @ new1"
    "\<forall>c\<in>set new1. fst (fst c) = full_name ''List''" by auto
  from call_method_proxy [of "''List''" "[]" s] cm have p1: "proxy s1 = proxy s" by simp
  have simple: ?thesis if "snd (get_all_windows_with_details lib s) = s1 \<or>
      snd (get_all_windows_with_details lib s) = s1\<lparr>logs := logs s1 @ [ListDecodeFailed]\<rparr>"
    using that n1 p1 by (intro exI [of _ new1]) auto
  show ?thesis
  proof (cases res)
    case None
    with cm show ?thesis by (intro simple) (simp add: get_all_windows_with_details_def)
  next
    case (Some j)
    show ?thesis
    proof (cases "j = [] \<or> json_loads lib j = None")
      case True
      with Some cm show ?thesis
        by (intro simple) (auto simp: get_all_windows_with_details_def)
    next
      case False
      then obtain b where b: "json_loads lib j = Some b" and j: "j \<noteq> []" by auto
      show ?thesis
      proof (cases "py_iter b")
        case (Inl e)
        with Some cm b j show ?thesis
          by (intro simple) (simp add: get_all_windows_with_details_def)
      next
        case (Inr wins)
        with Some cm b j have g: "get_all_windows_with_details lib s = details_loop lib wins [] s1"
          by (simp add: get_all_windows_with_details_def)
        from details_loop_trace [of lib wins "[]" s1]
        obtain new where n: "trace (snd (details_loop lib wins [] s1)) = trace s1 @ new"
          "\<forall>c\<in>set new. fst (fst c) = full_name ''GetDetails''"
          "proxy (snd (details_loop lib wins [] s1)) = proxy s1" by blast
        with g n1 p1 show ?thesis
          by (intro exI [of _ "new1 @ new"]) auto
      qed
    qed
  qed
qed

lemma list_failure_gives_none:
  assumes "fst (call_method ''List'' [] s) = None \<or>
           fst (call_method ''List'' [] s) = Some [] \<or>
           (\<exists>j. fst (call_method ''List'' [] s) = Some j \<and> json_loads lib j = None)"
  shows "fst (get_all_windows_with_details lib s) = Inr None"
    and "trace (snd (get_all_windows_with_details lib s)) = trace (snd (call_method ''List'' [] s))"
  using assms
  by (cases "call_method ''List'' [] s";
      auto simp: get_all_windows_with_details_def split: option.splits)+


lemma get_all_returns:
  assumes "get_all_windows_with_details lib s = (Inr (Some ds), s')"
  shows "\<exists>list_json new.
           trace s' = trace s @ ((full_name ''List'', []), Value list_json) # new \<and>
           list_json \<noteq> [] \<and> json_loads lib list_json \<noteq> None \<and>
           ds = List.map_filter (decoded lib) (map snd new) \<and>
           (\<forall>c\<in>set new. fst (fst c) = full_name ''GetDetails'') \<and>
           proxy s \<noteq> None \<and> proxy s' = proxy s"
proof -
  obtain res s1 where cm: "call_method ''List'' [] s = (res, s1)"
    by (cases "call_method ''List'' [] s")
  from assms cm obtain j b wins where j: "res = Some j" "j \<noteq> []" "json_loads lib j = Some b"
      "py_iter b = Inr wins" and dl: "details_loop lib wins [] s1 = (Inr (Some ds), s')"
    by (auto simp: get_all_windows_with_details_def split: option.splits if_splits sum.splits)
  from cm j(1) obtain r where r: "proxy s = Some r"
    by (cases "proxy s") (auto simp: call_method_def)
  from cm j(1) r have t1: "trace s1 = trace s @ [((full_name ''List'', []), Value j)]"
    and p1: "proxy s1 = proxy s"
    using call_method_trace [OF r, of "''List''" "[]"] call_method_result [OF r, of "''List''" "[]"]
      call_method_proxy [of "''List''" "[]" s]
    by (auto split: response.splits)
  from details_loop_returns [OF dl] obtain new where n: "trace s' = trace s1 @ new"
    "ds = [] @ List.map_filter (decoded lib) (map snd new)"
    "\<forall>c\<in>set new. fst (fst c) = full_name ''GetDetails''" "proxy s' = proxy s1" by blast
  with t1 p1 j r show ?thesis
    by (intro exI [of _ j] exI [of _ new]) simp
qed



section \<open>The methods called on the bus\<close>

lemma search_trace:
  "\<exists>new. trace (snd (search lib q s)) = trace s @ new \<and>
         (\<forall>c\<in>set new. fst (fst c) = full_name ''List'' \<or> fst (fst c) = full_name ''GetDetails'') \<and>
         proxy (snd (search lib q s)) = proxy s"
proof (cases "find_trigger plugin_keywords q = []")
  case True
  then show ?thesis by (simp add: search_def)
next
  case False
  then have "snd (search lib q s) = snd (get_all_windows_with_details lib s)"
    by (cases "get_all_windows_with_details lib s")
       (auto simp: search_def Let_def split: sum.splits option.splits)
  with get_all_trace [of lib s] show ?thesis by simp
qed

lemma execute_action_trace:
  "\<exists>new. trace (snd (execute_action a n s)) = trace s @ new \<and>
         (\<forall>c\<in>set new. fst (fst c) \<in> full_name ` {''Activate'', ''Close'', ''Maximize'', ''Unmaximize'', ''Minimize''})"
proof (cases "u32_of_int n")
  case (Inl e)
  then show ?thesis by (simp add: execute_action_def)
next
  case (Inr v)
  show ?thesis
  proof (cases "map_of (action_map v) a")
    case None
    with Inr show ?thesis by (simp add: execute_action_def)
  next
    case (Some mp)
    obtain m ps where mp: "mp = (m, ps)" by (cases mp)
    from Some mp have "m \<in> {''Activate'', ''Close'', ''Maximize'', ''Unmaximize'', ''Minimize''}"
      by (auto simp: action_map_lookup split: if_splits)
    moreover from Inr Some mp
    have "snd (execute_action a n s) = snd (call_method m ps s)"
      by (simp add: execute_action_def)
    ultimately show ?thesis using call_method_new [of m ps s] by auto
  qed
qed

lemma launch_trace:
  "\<exists>new. trace (snd (launch i s)) = trace s @ new \<and>
         (\<forall>c\<in>set new. fst (fst c) \<in> full_name ` {''Activate'', ''Close'', ''Maximize'', ''Unmaximize'', ''Minimize''})"
proof -
  have inner: "trace (snd (case execute_action a n s of
          (Some e, s1) \<Rightarrow> if e = ValueError \<or> e = IndexError
             then (None, s1\<lparr>logs := logs s1 @ [ParseIdFailed i]\<rparr>) else (Some e, s1)
        | (None, s1) \<Rightarrow> (None, s1))) = trace (snd (execute_action a n s))" for a n
    by (cases "execute_action a n s") (auto split: option.splits)
  have "trace (snd (launch i s)) = trace s \<or>
        (\<exists>a n. trace (snd (launch i s)) = trace (snd (execute_action a n s)))"
    by (simp add: launch_def inner split: list.splits option.splits) blast
  then show ?thesis
  proof
    assume "trace (snd (launch i s)) = trace s"
    then show ?thesis by simp
  next
    assume "\<exists>a n. trace (snd (launch i s)) = trace (snd (execute_action a n s))"
    then obtain a n where "trace (snd (launch i s)) = trace (snd (execute_action a n s))" by blast
    with execute_action_trace [of a n s] show ?thesis by simp
  qed
qed

lemma step_names:
  assumes "\<forall>c\<in>set (trace s). fst (fst c) \<in> full_name ` set remote_method_names"
  shows "\<forall>c\<in>set (trace (step lib s cb)). fst (fst c) \<in> full_name ` set remote_method_names"
proof (cases cb)
  case (Search q)
  from search_trace [of lib q s] obtain new where
    "trace (snd (search lib q s)) = trace s @ new"
    "\<forall>c\<in>set new. fst (fst c) = full_name ''List'' \<or> fst (fst c) = full_name ''GetDetails''"
    by blast
  with assms Search show ?thesis by (auto simp: remote_method_names_def)
next
  case (Launch i)
  from launch_trace [of i s] obtain new where
    "trace (snd (launch i s)) = trace s @ new"
    "\<forall>c\<in>set new. fst (fst c) \<in> full_name ` {''Activate'', ''Close'', ''Maximize'', ''Unmaximize'', ''Minimize''}"
    by blast
  with assms Launch show ?thesis by (auto simp: remote_method_names_def)
qed

lemma foldl_step_names:
  assumes "\<forall>c\<in>set (trace s). fst (fst c) \<in> full_name ` set remote_method_names"
  shows "\<forall>c\<in>set (trace (foldl (step lib) s cbs)). fst (fst c) \<in> full_name ` set remote_method_names"
  using assms
proof (induction cbs arbitrary: s)
  case Nil
  then show ?case by simp
next
  case (Cons cb cbs)
  from Cons.IH [OF step_names [OF Cons.prems, of lib cb]] show ?case by simp
qed

lemma init_trace: "trace (init outcome) = []"
  by (simp add: init_def split: sum.splits)

lemmas search_simps = search_def plugin_keywords_def py_lower_def lower_char_def
  window_results_def activate_result_def close_result_def toggle_result_def
  py_str_int_def digit_char_def

lemma sample_run_names:
  "called_names (run sample_lib (Inr desk) sample_session) =
     map full_name [''List'', ''GetDetails'', ''GetDetails'', ''GetDetails'', ''Activate'',
       ''Maximize'', ''Unmaximize'', ''Minimize'', ''Close'']"
  by (simp add: run_def sample_session_def called_names_def sample_simps run_simps search_simps)

text \<open>
  C2.  Whatever the library, the outcome of the proxy construction and the sequence of
  \<^verbatim>\<open>search\<close> and \<^verbatim>\<open>launch\<close> callbacks, every call that reaches the bus is made by
  \<^verbatim>\<open>_call_method\<close> under the interface name followed by one of List, GetDetails,
  Activate, Close, Maximize, Unmaximize, Minimize; and each of the seven is called
  in some run of the plugin.
\<close>

theorem remote_method_names_exact:
  "(\<forall>c\<in>set (trace (run lib outcome cbs)). fst (fst c) \<in> full_name ` set remote_method_names) \<and>
   (\<forall>m\<in>set remote_method_names.
      \<exists>lib outcome cbs. full_name m \<in> set (called_names (run lib outcome cbs)))"
proof
  show "\<forall>c\<in>set (trace (run lib outcome cbs)). fst (fst c) \<in> full_name ` set remote_method_names"
    unfolding run_def by (rule foldl_step_names) (simp add: init_trace)
next
  show "\<forall>m\<in>set remote_method_names.
      \<exists>lib outcome cbs. full_name m \<in> set (called_names (run lib outcome cbs))"
  proof
    fix m assume "m \<in> set remote_method_names"
    then have "full_name m \<in> set (called_names (run sample_lib (Inr desk) sample_session))"
      unfolding sample_run_names by (auto simp: remote_method_names_def)
    then show "\<exists>lib outcome cbs. full_name m \<in> set (called_names (run lib outcome cbs))"
      by blast
  qed
qed

theorem remote_method_names_exact_witness:
  "called_names (run sample_lib (Inr desk) sample_session) =
     map full_name [''List'', ''GetDetails'', ''GetDetails'', ''GetDetails'', ''Activate'',
       ''Maximize'', ''Unmaximize'', ''Minimize'', ''Close''] \<and>
   trace (run sample_lib (Inr desk) sample_session) \<noteq> [] \<and>
   fst (fst (hd (trace (run sample_lib (Inr desk) sample_session)))) = full_name ''List'' \<and>
   full_name ''List'' \<in> full_name ` set remote_method_names"
  using remote_method_names_exact [of sample_lib "Inr desk" sample_session]
    sample_run_names
  by (cases "trace (run sample_lib (Inr desk) sample_session)")
     (auto simp: called_names_def remote_method_names_def)

section \<open>Searching the sample desktop\<close>

lemma search_triggered:
  assumes "find_trigger plugin_keywords q \<noteq> []"
  shows "search lib q s =
     (case get_all_windows_with_details lib s of
        (Inl e, s1) \<Rightarrow> (([], Some e), s1)
      | (Inr None, s1) \<Rightarrow> (([error_result], None), s1)
      | (Inr (Some windows), s1) \<Rightarrow> (search_loop lib (search_term_of q) windows, s1))"
  using assms unfolding search_def search_term_of_def Let_def by simp

lemma search_fst:
  assumes "find_trigger plugin_keywords q \<noteq> []"
  shows "fst (get_all_windows_with_details lib s) = Inr (Some ws) \<Longrightarrow>
           fst (search lib q s) = search_loop lib (search_term_of q) ws"
    and "fst (get_all_windows_with_details lib s) = Inr None \<Longrightarrow>
           fst (search lib q s) = ([error_result], None)"
    and "fst (get_all_windows_with_details lib s) = Inl e \<Longrightarrow>
           fst (search lib q s) = ([], Some e)"
  by (cases "get_all_windows_with_details lib s"; simp add: search_triggered [OF assms])+



lemma fetch_large_id:
  \<open>fst (get_all_windows_with_details sample_lib
      (init (Inr (scripted ''[{"id": 7}]''
          ''{"id": 4294967296, "title": "Inbox - Mail"}'')))) =
     Inr (Some [JObj [(''id'', JInt 4294967296), (''title'', JStr ''Inbox - Mail'')]])\<close>
  by (simp add: sample_simps run_simps)

lemma trigger_w_mail: "find_trigger plugin_keywords ''w mail'' \<noteq> []"
  "search_term_of ''w mail'' = ''mail''"
  by (simp_all add: search_term_of_def py_strip_def is_space_def
      find_trigger_keywords py_lower_def lower_char_def)

lemmas window_simps = window_results_def activate_result_def close_result_def
  toggle_result_def py_str_int_def digit_char_def digits_of.simps py_lower_def lower_char_def
  Let_def




lemma desk_search_mail:
  "fst (search sample_lib ''w mail'' (init (Inr desk))) =
     ([activate_result ''7'' ''Inbox - Mail'' ''thunderbird'' 8,
       close_result ''7'' ''Inbox - Mail'' ''thunderbird'' 8,
       toggle_result False ''7'' ''Inbox - Mail'' ''thunderbird'' 8], None)"
  by (simp add: search_fst(1) [OF trigger_w_mail(1) desk_fetch] trigger_w_mail(2)
      window_results_def py_str_int_def digit_char_def digits_of.simps py_lower_def
      lower_char_def Let_def)

lemma large_id_search:
  \<open>map sr_id (fst (fst (search sample_lib ''w mail''
      (init (Inr (scripted ''[{"id": 7}]'' ''{"id": 4294967296, "title": "Inbox - Mail"}'')))))) =
     [''activate:4294967296'', ''close:4294967296'', ''maximize:4294967296'']\<close>
  by (simp add: search_fst(1) [OF trigger_w_mail(1) fetch_large_id] trigger_w_mail(2)
      window_simps)

lemma large_id_launch:
  "launch ''activate:4294967296'' s = (Some OverflowError, s)"
  by (simp add: launch_def execute_action_def u32_of_int_def in_u32_def
      py_int_def py_strip_def is_space_def parse_digits_def is_digit_def digit_val_def)

section \<open>The results for one window\<close>

lemma gt_zero_error: "gt_zero v = Inl e \<Longrightarrow> e = TypeError"
  by (induction v rule: gt_zero.induct) auto

lemma window_results_shaped:
  assumes "title_of w = Some t" "wm_class_of w = Some c"
  shows "window_results lib st w =
     (let offset = (if py_find (py_lower t) st = - 1 then py_find (py_lower c) st
                    else py_find (py_lower t) st)
      in if offset = - 1 \<or> \<not> truthy (id_of w) then ([], None)
         else (case maximized_of w of
                 None \<Rightarrow>
                   ([activate_result (py_str lib (id_of w)) t c offset,
                     close_result (py_str lib (id_of w)) t c offset], Some TypeError)
               | Some b \<Rightarrow>
                   ([activate_result (py_str lib (id_of w)) t c offset,
                     close_result (py_str lib (id_of w)) t c offset,
                     toggle_result b (py_str lib (id_of w)) t c offset], None)))"
proof -
  from assms(1) obtain kvs where w: "w = JObj kvs"
    by (cases w) (auto simp: title_of_def)
  from assms(1) w have t: "str_of (case map_of kvs ''title'' of None \<Rightarrow> JStr ''Untitled Window''
      | Some v \<Rightarrow> v) = Inr t"
    by (auto simp: title_of_def split: option.splits json.splits)
  from assms(2) w have c: "str_of (case map_of kvs ''wm_class'' of None \<Rightarrow> JStr ''unknown''
      | Some v \<Rightarrow> v) = Inr c"
    by (auto simp: wm_class_of_def split: option.splits json.splits)
  have i: "(case map_of kvs ''id'' of None \<Rightarrow> JNull | Some v \<Rightarrow> v) = id_of w"
    using w by simp
  show ?thesis
  proof (cases "map_of kvs ''maximized''")
    case None
    then show ?thesis
      unfolding window_results_def w dict_get.simps
      by (simp add: t c Let_def)
  next
    case (Some v)
    show ?thesis
    proof (cases "gt_zero v")
      case (Inl e)
      then have "e = TypeError" by (rule gt_zero_error)
      with Inl Some show ?thesis
        unfolding window_results_def w dict_get.simps
        by (simp add: t c Let_def)
    next
      case (Inr b)
      with Some show ?thesis
        unfolding window_results_def w dict_get.simps
        by (simp add: t c Let_def)
    qed
  qed
qed

lemma window_results_unshaped:
  assumes "title_of w = None \<or> wm_class_of w = None"
  shows "fst (window_results lib st w) = []"
proof (cases "\<exists>kvs. w = JObj kvs")
  case False
  then have "dict_get w ''title'' (JStr ''Untitled Window'') = Inl AttributeError"
    by (cases w) auto
  then show ?thesis by (simp add: window_results_def)
next
  case True
  then obtain kvs where w: "w = JObj kvs" by blast
  let ?tv = "case map_of kvs ''title'' of None \<Rightarrow> JStr ''Untitled Window'' | Some v \<Rightarrow> v"
  let ?cv = "case map_of kvs ''wm_class'' of None \<Rightarrow> JStr ''unknown'' | Some v \<Rightarrow> v"
  from assms w have "str_of ?tv = Inl AttributeError \<or> str_of ?cv = Inl AttributeError"
    by (auto simp: title_of_def wm_class_of_def split: option.splits json.splits)
  then show ?thesis
    unfolding window_results_def w dict_get.simps
    by (cases "str_of ?tv") auto
qed


lemma result_fields:
  "sr_id (activate_result i t c off) = ''activate:'' @ i"
  "sr_id (close_result i t c off) = ''close:'' @ i"
  "sr_id (toggle_result b i t c off) = (if b then ''unmaximize:'' else ''maximize:'') @ i"
  "sr_score (activate_result i t c off) = 100"
  "sr_score (close_result i t c off) = 90"
  "sr_score (toggle_result b i t c off) = 80"
  by (simp_all add: activate_result_def close_result_def toggle_result_def)

lemma window_results_ids:
  assumes "r \<in> set (fst (window_results lib st w))"
  shows "sr_id r \<in> {''activate:'' @ py_str lib (id_of w), ''close:'' @ py_str lib (id_of w),
           ''maximize:'' @ py_str lib (id_of w), ''unmaximize:'' @ py_str lib (id_of w)}"
proof (cases "title_of w = None \<or> wm_class_of w = None")
  case True
  with assms show ?thesis by (simp add: window_results_unshaped)
next
  case False
  then obtain t c where tc: "title_of w = Some t" "wm_class_of w = Some c" by auto
  from assms show ?thesis
    unfolding window_results_shaped [OF tc]
    by (auto simp: Let_def result_fields split: if_splits option.splits)
qed





section \<open>Matching windows\<close>







section \<open>From a search result to the call\<close>

lemma search_loop_origin:
  assumes "r \<in> set (fst (search_loop lib st ws))"
  shows "\<exists>w\<in>set ws. r \<in> set (fst (window_results lib st w))"
  using assms
proof (induction ws)
  case Nil
  then show ?case by simp
next
  case (Cons w ws)
  obtain rs e where wr: "window_results lib st w = (rs, e)"
    by (cases "window_results lib st w")
  show ?case
  proof (cases e)
    case (Some x)
    with wr Cons.prems show ?thesis by simp
  next
    case None
    obtain rs' e' where sl: "search_loop lib st ws = (rs', e')"
      by (cases "search_loop lib st ws")
    with wr None Cons.prems have "r \<in> set rs \<or> r \<in> set rs'" by simp
    with wr sl Cons.IH show ?thesis by auto
  qed
qed

lemma search_results_origin:
  assumes "r \<in> set (fst (fst (search lib q s)))" and "\<not> prefix ''error:'' (sr_id r)"
  shows "\<exists>ws. fst (get_all_windows_with_details lib s) = Inr (Some ws) \<and>
           (\<exists>w\<in>set ws. r \<in> set (fst (window_results lib (search_term_of q) w)))"
proof -
  from assms(1) have tr: "find_trigger plugin_keywords q \<noteq> []"
    by (auto simp: search_def)
  obtain res s1 where g: "get_all_windows_with_details lib s = (res, s1)"
    by (cases "get_all_windows_with_details lib s")
  show ?thesis
  proof (cases res)
    case (Inl e)
    with g assms(1) show ?thesis by (simp add: search_triggered [OF tr])
  next
    case (Inr opt)
    show ?thesis
    proof (cases opt)
      case None
      with Inr g assms(1) have "r = error_result" by (simp add: search_triggered [OF tr])
      with assms(2) show ?thesis by (simp add: error_result_def)
    next
      case (Some ws)
      with Inr g assms(1) have "r \<in> set (fst (search_loop lib (search_term_of q) ws))"
        by (simp add: search_triggered [OF tr])
      from search_loop_origin [OF this] Some Inr g show ?thesis by simp
    qed
  qed
qed

lemma launch_well_formed:
  assumes "ident = a @ '':'' @ py_str_int n" "\<not> prefix ''error:'' ident" "CHR '':'' \<notin> set a"
  shows "launch ident s =
     (case execute_action a n s of
        (Some e, s1) \<Rightarrow>
          if e = ValueError \<or> e = IndexError
          then (None, s1\<lparr>logs := logs s1 @ [ParseIdFailed ident]\<rparr>)
          else (Some e, s1)
      | (None, s1) \<Rightarrow> (None, s1))"
proof -
  have "py_split CHR '':'' ident = [a, py_str_int n]"
    using assms(1,3) by (simp add: py_split_append py_split_no_sep py_str_int_no_colon)
  with assms(2) show ?thesis
    by (simp add: launch_def py_int_py_str_int)
qed

lemma launch_offered:
  assumes "(a, m) \<in> set offered_actions" "in_u32 n" "proxy s2 = Some rm"
  shows "\<exists>ps. map_of (action_map (VU (word_of_int n))) a = Some (m, ps) \<and>
           hd ps = VU (word_of_int n) \<and>
           fst (launch (a @ '':'' @ py_str_int n) s2) = None \<and>
           trace (snd (launch (a @ '':'' @ py_str_int n) s2)) =
             trace s2 @ [((full_name m, ps), rm (map fst (trace s2)) (full_name m, ps))]"
proof -
  from assms(1) have np: "\<not> prefix ''error:'' (a @ '':'' @ py_str_int n)" and nc: "CHR '':'' \<notin> set a"
    by (auto simp: offered_actions_def)
  from assms(1) obtain ps where ps: "map_of (action_map (VU (word_of_int n))) a = Some (m, ps)"
      "hd ps = VU (word_of_int n)"
    by (auto simp: offered_actions_def action_map_lookup)
  from execute_action_known [OF assms(3,2) ps(1)]
  have e: "fst (execute_action a n s2) = None"
    "trace (snd (execute_action a n s2)) =
       trace s2 @ [((full_name m, ps), rm (map fst (trace s2)) (full_name m, ps))]" by simp_all
  obtain s3 where s3: "execute_action a n s2 = (None, s3)"
    using e(1) by (cases "execute_action a n s2") auto
  with e(2) have "trace s3 = trace s2 @ [((full_name m, ps), rm (map fst (trace s2)) (full_name m, ps))]"
    by simp
  moreover have "launch (a @ '':'' @ py_str_int n) s2 = (None, s3)"
    using launch_well_formed [OF refl np nc, of s2] s3 by simp
  ultimately show ?thesis
    using ps by (intro exI [of _ ps]) simp
qed

text \<open>
  C1 (as amended).  Every result of \<^verbatim>\<open>search\<close> whose id does not start with \<open>error:\<close>
  is yielded for one of the fetched windows.  If the id of that window is an integer
  \<open>n\<close> with \<open>0 < n < 2^32\<close>, the result's id is \<open>a:n\<close> with \<open>a\<close> one of activate,
  close, maximize, unmaximize, and \<^verbatim>\<open>launch\<close> with that id, in any later state of the
  same plugin, returns normally and makes exactly one call: the method mapped to
  \<open>a\<close>, with the window id \<open>n\<close> as its first argument.  For \<open>n\<close> from \<open>2^32\<close> on the id
  does not fit the D-Bus type \<open>u\<close>: \<^verbatim>\<open>launch\<close> raises and calls nothing.
\<close>

theorem search_launch_round_trip:
  assumes "r \<in> set (fst (fst (search lib q s)))" and "\<not> prefix ''error:'' (sr_id r)"
  shows "\<exists>ws. fst (get_all_windows_with_details lib s) = Inr (Some ws) \<and>
    (\<exists>w\<in>set ws. r \<in> set (fst (window_results lib (search_term_of q) w)) \<and>
       (\<forall>n. id_of w = JInt n \<and> 0 < n \<and> n < 4294967296 \<longrightarrow>
          (\<exists>a m ps. (a, m) \<in> set offered_actions \<and>
             sr_id r = a @ '':'' @ py_str_int n \<and>
             map_of (action_map (VU (word_of_int n))) a = Some (m, ps) \<and>
             hd ps = VU (word_of_int n) \<and>
             uint (word_of_int n :: 32 word) = n \<and>
             (\<forall>s2. proxy s2 = proxy (snd (search lib q s)) \<longrightarrow>
                fst (launch (sr_id r) s2) = None \<and>
                (\<exists>resp. trace (snd (launch (sr_id r) s2)) =
                   trace s2 @ [((full_name m, ps), resp)])))))"
proof -
  from search_results_origin [OF assms] obtain ws w where
    g: "fst (get_all_windows_with_details lib s) = Inr (Some ws)" and
    w: "w \<in> set ws" "r \<in> set (fst (window_results lib (search_term_of q) w))" by blast
  from g obtain s1 where "get_all_windows_with_details lib s = (Inr (Some ws), s1)"
    by (cases "get_all_windows_with_details lib s") auto
  from get_all_returns [OF this] obtain rm where rm: "proxy s = Some rm" by auto
  from search_trace [of lib q s] have ps: "proxy (snd (search lib q s)) = proxy s" by blast
  have main: "\<exists>a m ps. (a, m) \<in> set offered_actions \<and>
             sr_id r = a @ '':'' @ py_str_int n \<and>
             map_of (action_map (VU (word_of_int n))) a = Some (m, ps) \<and>
             hd ps = VU (word_of_int n) \<and>
             uint (word_of_int n :: 32 word) = n \<and>
             (\<forall>s2. proxy s2 = proxy (snd (search lib q s)) \<longrightarrow>
                fst (launch (sr_id r) s2) = None \<and>
                (\<exists>resp. trace (snd (launch (sr_id r) s2)) =
                   trace s2 @ [((full_name m, ps), resp)]))"
    if n: "id_of w = JInt n \<and> 0 < n \<and> n < 4294967296" for n
  proof -
    from n have u: "in_u32 n" by (simp add: in_u32_def)
    then have ui: "uint (word_of_int n :: 32 word) = n"
      by (simp add: in_u32_def uint_word_of_int)
    from window_results_ids [OF w(2)] n
    have "sr_id r = ''activate'' @ '':'' @ py_str_int n \<or>
          sr_id r = ''close'' @ '':'' @ py_str_int n \<or>
          sr_id r = ''maximize'' @ '':'' @ py_str_int n \<or>
          sr_id r = ''unmaximize'' @ '':'' @ py_str_int n" by simp
    then have "\<exists>a m. (a, m) \<in> set offered_actions \<and> sr_id r = a @ '':'' @ py_str_int n"
      unfolding offered_actions_def
      by (elim disjE)
         ((rule exI [of _ "''activate''"], rule exI [of _ "''Activate''"], simp),
          (rule exI [of _ "''close''"], rule exI [of _ "''Close''"], simp),
          (rule exI [of _ "''maximize''"], rule exI [of _ "''Maximize''"], simp),
          (rule exI [of _ "''unmaximize''"], rule exI [of _ "''Unmaximize''"], simp))
    then obtain a m where am: "(a, m) \<in> set offered_actions"
      and idr: "sr_id r = a @ '':'' @ py_str_int n" by (elim exE conjE)
    have lo: "\<exists>ps. map_of (action_map (VU (word_of_int n))) a = Some (m, ps) \<and>
           hd ps = VU (word_of_int n) \<and>
           fst (launch (sr_id r) s2) = None \<and>
           trace (snd (launch (sr_id r) s2)) =
             trace s2 @ [((full_name m, ps), rm (map fst (trace s2)) (full_name m, ps))]"
      if "proxy s2 = Some rm" for s2
      unfolding idr by (rule launch_offered [OF am u that])
    from lo [of "s\<lparr>proxy := Some rm\<rparr>"] obtain ps0 where
      ps0: "map_of (action_map (VU (word_of_int n))) a = Some (m, ps0)"
        "hd ps0 = VU (word_of_int n)" by auto
    have "fst (launch (sr_id r) s2) = None \<and>
          (\<exists>resp. trace (snd (launch (sr_id r) s2)) = trace s2 @ [((full_name m, ps0), resp)])"
      if "proxy s2 = proxy (snd (search lib q s))" for s2
    proof -
      from that ps rm have "proxy s2 = Some rm" by simp
      from lo [OF this] ps0(1) show ?thesis by auto
    qed
    then have "\<forall>s2. proxy s2 = proxy (snd (search lib q s)) \<longrightarrow>
                fst (launch (sr_id r) s2) = None \<and>
                (\<exists>resp. trace (snd (launch (sr_id r) s2)) =
                   trace s2 @ [((full_name m, ps0), resp)])" by blast
    with am idr ps0 ui show ?thesis
      by (intro exI [of _ a] exI [of _ m] exI [of _ ps0] conjI)
  qed
  show ?thesis
    by (rule exI [of _ ws], rule conjI [OF g], rule bexI [OF _ w(1)], rule conjI [OF w(2)])
       (intro allI impI, rule main)
qed

theorem search_launch_round_trip_witness:
  "map sr_id (fst (fst (search sample_lib ''w mail'' (init (Inr desk))))) =
     [''activate:7'', ''close:7'', ''maximize:7''] \<and>
   fst (launch ''close:7'' (init (Inr desk))) = None \<and>
   map fst (trace (snd (launch ''close:7'' (init (Inr desk))))) =
     [(full_name ''Close'', [VU 7, VB False])]"
proof -
  have m: "close_result ''7'' ''Inbox - Mail'' ''thunderbird'' 8
      \<in> set (fst (fst (search sample_lib ''w mail'' (init (Inr desk)))))"
    by (simp add: desk_search_mail)
  have e: "\<not> prefix ''error:'' (sr_id (close_result ''7'' ''Inbox - Mail'' ''thunderbird'' 8))"
    by (simp add: result_fields)
  have l: "fst (launch ''close:7'' (init (Inr desk))) = None \<and>
      map fst (trace (snd (launch ''close:7'' (init (Inr desk))))) =
        [(full_name ''Close'', [VU 7, VB False])]"
    by (simp add: run_simps)
  from search_launch_round_trip [OF m e] l show ?thesis
    by (simp add: desk_search_mail result_fields)
qed

theorem large_id_round_trip_counterexample:
  \<open>map sr_id (fst (fst (search sample_lib ''w mail''
      (init (Inr (scripted ''[{"id": 7}]'' ''{"id": 4294967296, "title": "Inbox - Mail"}'')))))) =
     [''activate:4294967296'', ''close:4294967296'', ''maximize:4294967296''] \<and>
   (0 :: int) < 4294967296 \<and>
   launch ''activate:4294967296''
     (snd (search sample_lib ''w mail''
        (init (Inr (scripted ''[{"id": 7}]'' ''{"id": 4294967296, "title": "Inbox - Mail"}''))))) =
     (Some OverflowError,
      snd (search sample_lib ''w mail''
        (init (Inr (scripted ''[{"id": 7}]'' ''{"id": 4294967296, "title": "Inbox - Mail"}'')))))\<close>
  using large_id_search large_id_launch by simp

section \<open>Failures and what follows them\<close>

lemma call_method_error:
  assumes "proxy s = Some r" "r (map fst (trace s)) (full_name m, ps) = GLibError err"
  shows "call_method m ps s =
     (None, s\<lparr>trace := trace s @ [((full_name m, ps), GLibError err)],
               logs := logs s @ [CallFailed m err]\<rparr>)"
  using assms by (simp add: call_method_def full_name_def Let_def)

lemma list_decode_failure:
  assumes "fst (call_method ''List'' [] s) = Some j" "j \<noteq> []" "json_loads lib j = None"
  shows "get_all_windows_with_details lib s =
     (Inr None, (snd (call_method ''List'' [] s))
        \<lparr>logs := logs (snd (call_method ''List'' [] s)) @ [ListDecodeFailed]\<rparr>)"
  using assms
  by (cases "call_method ''List'' [] s") (simp add: get_all_windows_with_details_def)

lemma details_decode_failure:
  assumes "dict_get w ''id'' JNull = Inr i" "truthy i" "variant_u i = Inr v"
    and "fst (call_method ''GetDetails'' [v] s) = Some j" "j \<noteq> []" "json_loads lib j = None"
  shows "details_loop lib (w # ws) acc s =
     details_loop lib ws acc
       ((snd (call_method ''GetDetails'' [v] s))
          \<lparr>logs := logs (snd (call_method ''GetDetails'' [v] s)) @ [DetailsDecodeFailed i]\<rparr>)"
  using assms
  by (cases "call_method ''GetDetails'' [v] s") (simp add: details_loop_Cons)

lemma list_call_once:
  assumes "proxy s = Some r" "fst (call_method ''List'' [] s) = None"
  shows "trace (snd (get_all_windows_with_details lib s)) =
     trace s @ [((full_name ''List'', []), r (map fst (trace s)) (full_name ''List'', []))]"
  using assms list_failure_gives_none(2) [of s lib] call_method_trace [OF assms(1), of "''List''" "[]"]
  by simp

lemma no_bus_search:
  "search sample_lib ''w mail'' (init (Inl ''no bus'')) =
     (([error_result], None),
      \<lparr>proxy = None, trace = [], logs = [ConnectFailed ''no bus'', ProxyUnavailable]\<rparr>)"
  by (simp add: search_triggered [OF trigger_w_mail(1)] get_all_windows_with_details_def
      call_method_def init_def)

text \<open>
  C5 (as amended).  A failed proxy construction, a remote call that raises, and a
  response that is not valid JSON are each answered by one log record and nothing
  else in the D-Bus helper: the call returns \<^verbatim>\<open>None\<close>, or the window is skipped;
  the failing call is made once and not repeated; the proxy is never changed by
  \<^verbatim>\<open>search\<close> or \<^verbatim>\<open>launch\<close>.  There is one more output: when the window list comes
  back as \<^verbatim>\<open>None\<close>, \<^verbatim>\<open>search\<close> tells the launcher so with the single result
  \<open>error:no-connection\<close>.
\<close>

theorem failures_only_logged:
  "init (Inl e) = \<lparr>proxy = None, trace = [], logs = [ConnectFailed e]\<rparr> \<and>
   level (ConnectFailed e) = ERROR \<and>
   (proxy s = None \<longrightarrow>
      call_method m ps s = (None, s\<lparr>logs := logs s @ [ProxyUnavailable]\<rparr>)) \<and>
   (proxy s = Some r \<and> r (map fst (trace s)) (full_name m, ps) = GLibError err \<longrightarrow>
      call_method m ps s =
        (None, s\<lparr>trace := trace s @ [((full_name m, ps), GLibError err)],
                  logs := logs s @ [CallFailed m err]\<rparr>)) \<and>
   (proxy s = Some r \<and> fst (call_method ''List'' [] s) = None \<longrightarrow>
      fst (get_all_windows_with_details lib s) = Inr None \<and>
      trace (snd (get_all_windows_with_details lib s)) =
        trace s @ [((full_name ''List'', []), r (map fst (trace s)) (full_name ''List'', []))]) \<and>
   (fst (call_method ''List'' [] s) = Some j \<and> j \<noteq> [] \<and> json_loads lib j = None \<longrightarrow>
      get_all_windows_with_details lib s =
        (Inr None, (snd (call_method ''List'' [] s))
           \<lparr>logs := logs (snd (call_method ''List'' [] s)) @ [ListDecodeFailed]\<rparr>)) \<and>
   (dict_get w ''id'' JNull = Inr i \<and> truthy i \<and> variant_u i = Inr v \<and>
    fst (call_method ''GetDetails'' [v] s) = Some j \<and> j \<noteq> [] \<and> json_loads lib j = None \<longrightarrow>
      details_loop lib (w # ws) acc s =
        details_loop lib ws acc
          ((snd (call_method ''GetDetails'' [v] s))
             \<lparr>logs := logs (snd (call_method ''GetDetails'' [v] s)) @ [DetailsDecodeFailed i]\<rparr>)) \<and>
   (find_trigger plugin_keywords q \<noteq> [] \<and> fst (get_all_windows_with_details lib s) = Inr None \<longrightarrow>
      fst (search lib q s) = ([error_result], None)) \<and>
   proxy (snd (search lib q s)) = proxy s \<and>
   proxy (snd (launch ident s)) = proxy s"
proof (intro conjI impI)
  show "init (Inl e) = \<lparr>proxy = None, trace = [], logs = [ConnectFailed e]\<rparr>"
    by (simp add: init_def)
  show "level (ConnectFailed e) = ERROR" by simp
  show "call_method m ps s = (None, s\<lparr>logs := logs s @ [ProxyUnavailable]\<rparr>)"
    if "proxy s = None" using that by (rule call_method_no_proxy)
  show "call_method m ps s =
        (None, s\<lparr>trace := trace s @ [((full_name m, ps), GLibError err)],
                  logs := logs s @ [CallFailed m err]\<rparr>)"
    if "proxy s = Some r \<and> r (map fst (trace s)) (full_name m, ps) = GLibError err"
    using that by (auto intro: call_method_error)
  show "fst (get_all_windows_with_details lib s) = Inr None"
    if "proxy s = Some r \<and> fst (call_method ''List'' [] s) = None"
    using that list_failure_gives_none(1) [of s lib] by simp
  show "trace (snd (get_all_windows_with_details lib s)) =
        trace s @ [((full_name ''List'', []), r (map fst (trace s)) (full_name ''List'', []))]"
    if "proxy s = Some r \<and> fst (call_method ''List'' [] s) = None"
    using that list_call_once [of s r lib] by simp
  show "get_all_windows_with_details lib s =
        (Inr None, (snd (call_method ''List'' [] s))
           \<lparr>logs := logs (snd (call_method ''List'' [] s)) @ [ListDecodeFailed]\<rparr>)"
    if "fst (call_method ''List'' [] s) = Some j \<and> j \<noteq> [] \<and> json_loads lib j = None"
    using that list_decode_failure [of s j lib] by simp
  show "details_loop lib (w # ws) acc s =
        details_loop lib ws acc
          ((snd (call_method ''GetDetails'' [v] s))
             \<lparr>logs := logs (snd (call_method ''GetDetails'' [v] s)) @ [DetailsDecodeFailed i]\<rparr>)"
    if "dict_get w ''id'' JNull = Inr i \<and> truthy i \<and> variant_u i = Inr v \<and>
    fst (call_method ''GetDetails'' [v] s) = Some j \<and> j \<noteq> [] \<and> json_loads lib j = None"
    using that details_decode_failure [of w i v s j lib ws acc] by simp
  show "fst (search lib q s) = ([error_result], None)"
    if "find_trigger plugin_keywords q \<noteq> [] \<and> fst (get_all_windows_with_details lib s) = Inr None"
    using that search_fst(2) [of q lib s] by simp
  show "proxy (snd (search lib q s)) = proxy s"
    using search_trace [of lib q s] by blast
  show "proxy (snd (launch ident s)) = proxy s" by (rule launch_proxy)
qed

theorem failures_only_logged_witness:
  \<open>fst (call_method ''List'' [] (init (Inr failing))) = None \<and>
   logs (snd (call_method ''List'' [] (init (Inr failing)))) =
     [Connected, CallFailed ''List'' ''timeout''] \<and>
   map fst (trace (snd (get_all_windows_with_details sample_lib (init (Inr failing))))) =
     [(full_name ''List'', [])] \<and>
   fst (search sample_lib ''w mail'' (init (Inr failing))) = ([error_result], None) \<and>
   logs (snd (details_loop sample_lib [JObj [(''id'', JInt 11)]] [] (init (Inr desk)))) =
     [Connected, DetailsDecodeFailed (JInt 11)] \<and>
   logs (snd (get_all_windows_with_details sample_lib (init (Inr (scripted ''{"id": 11'' ''''))))) =
     [Connected, ListDecodeFailed]\<close>
proof -
  have f: "fst (get_all_windows_with_details sample_lib (init (Inr failing))) = Inr None"
    by (simp add: sample_simps run_simps failing_def)
  have a: \<open>fst (call_method ''List'' [] (init (Inr failing))) = None \<and>
   logs (snd (call_method ''List'' [] (init (Inr failing)))) =
     [Connected, CallFailed ''List'' ''timeout''] \<and>
   map fst (trace (snd (get_all_windows_with_details sample_lib (init (Inr failing))))) =
     [(full_name ''List'', [])] \<and>
   logs (snd (details_loop sample_lib [JObj [(''id'', JInt 11)]] [] (init (Inr desk)))) =
     [Connected, DetailsDecodeFailed (JInt 11)] \<and>
   logs (snd (get_all_windows_with_details sample_lib (init (Inr (scripted ''{"id": 11'' ''''))))) =
     [Connected, ListDecodeFailed]\<close>
    by (simp add: sample_simps run_simps failing_def)
  from failures_only_logged [where s = "init (Inr failing)" and r = failing and m = "''List''"
      and ps = "[]" and err = "''timeout''" and lib = sample_lib and q = "''w mail''"]
    trigger_w_mail(1) f
  have "fst (search sample_lib ''w mail'' (init (Inr failing))) = ([error_result], None)"
    by (simp add: init_def failing_def)
  with a show ?thesis by simp
qed

theorem error_result_counterexample:
  "search sample_lib ''w mail'' (init (Inl ''no bus'')) =
     (([error_result], None),
      \<lparr>proxy = None, trace = [], logs = [ConnectFailed ''no bus'', ProxyUnavailable]\<rparr>) \<and>
   sr_title error_result = ''Window Commander Not Found or Failed''"
  by (simp add: no_bus_search) (simp add: error_result_def)

end
